theory Spec2Isabelle
  imports Main "HOL-Library.Char_ord" "HOL-Library.List_Lexorder"
begin

section \<open>Python values and exceptions\<close>

text \<open>
  The fragment of Python's dynamic values that reaches the RPC core: parameters of a
  request, payloads of a result, the argument of \<open>system.multicall\<close>. A set keeps its
  elements in iteration order; a dict is its items in insertion order.
\<close>

datatype pyval =
    PNone
  | PBool bool
  | PInt int
  | PStr string
  | PList "pyval list"
  | PTuple "pyval list"
  | PSet "pyval list"
  | PDict "(pyval \<times> pyval) list"

text \<open>The exceptions the modelled code can raise. An exception is the \<open>Inl\<close> of a result.\<close>

datatype pyerror =
    ImproperlyConfigured
  | RPCInvalidParams
  | ValueError
  | KeyError
  | TypeError
  | IndexError
  | AttributeError

text \<open>A list or a tuple: Python's \<open>==\<close> tells the two apart.\<close>

datatype 'a pyseq = PyList "'a list" | PyTuple "'a list"

fun items :: "'a pyseq \<Rightarrow> 'a list" where
  "items (PyList xs) = xs"
| "items (PyTuple xs) = xs"

text \<open>\<open>d[k] = v\<close> on a dict kept as its items in insertion order.\<close>

fun dict_set :: "('k \<times> 'v) list \<Rightarrow> 'k \<Rightarrow> 'v \<Rightarrow> ('k \<times> 'v) list" where
  "dict_set [] k v = [(k, v)]"
| "dict_set ((k', v') # kvs) k v =
     (if k' = k then (k', v) # kvs else (k', v') # dict_set kvs k v)"

text \<open>\<open>d.get(k, default)\<close>.\<close>

definition dict_get :: "('k \<times> 'v) list \<Rightarrow> 'k \<Rightarrow> 'v \<Rightarrow> 'v" where
  "dict_get d k dflt = (case map_of d k of Some v \<Rightarrow> v | None \<Rightarrow> dflt)"

text \<open>\<open>s.startswith(p)\<close>.\<close>

definition startswith :: "string \<Rightarrow> string \<Rightarrow> bool" where
  "startswith s p = (take (length p) s = p)"

text \<open>\<open>a or b\<close> on strings: the first if it is not empty.\<close>

definition str_or :: "string \<Rightarrow> string \<Rightarrow> string" where
  "str_or a b = (if a \<noteq> [] then a else b)"

section \<open>core.py: constants\<close>

definition ALL' :: string where
  "ALL' = ''__all__''"

definition JSONRPC_PROTOCOL :: string where
  "JSONRPC_PROTOCOL = ''__json_rpc''"

definition XMLRPC_PROTOCOL :: string where
  "XMLRPC_PROTOCOL = ''__xml_rpc''"

section \<open>Procedure declarations\<close>

text \<open>
  The value of \<open>entry_point\<close> and of \<open>protocol\<close> in a declaration: one identifier
  (\<open>ALL\<close> is the identifier \<open>__all__\<close>) or a list or tuple of identifiers.
\<close>

datatype selector = One string | Many "string pyseq"

text \<open>
  Modelled from the spec: \<open>Introspector\<close> of modernrpc.introspection, which is not part of
  the sources at hand. The spec gives what it exposes for a procedure: the argument names
  in order, a type hint per argument, the return type hint, and whether the procedure
  accepts arbitrary keyword arguments.
\<close>

record introspector =
  intro_args :: "string list"
  intro_args_types :: "(string \<times> string) list"
  intro_return_type :: string
  intro_accept_kwargs :: bool

text \<open>
  Modelled from the spec: \<open>DocstringParser\<close> of modernrpc.introspection, not part of the
  sources at hand. The spec gives what it exposes: raw and rendered documentation, and per
  argument and for the return value a documentation text and a declared type.
\<close>

record docstring_parser =
  doc_raw_docstring :: string
  doc_html_doc :: string
  doc_args_doc :: "(string \<times> string) list"
  doc_args_types :: "(string \<times> string) list"
  doc_return_doc :: string
  doc_return_type :: string

text \<open>
  A predicate is a callable; the descriptor holds a reference to it and \<open>==\<close> on two
  references is identity.
\<close>

type_synonym pred_ref = nat

text \<open>
  A Python function object as \<open>register_method\<close> and \<open>RPCMethod\<close> read it: its identity,
  its \<open>__name__\<close>, and the attributes put on it by \<open>@rpc_method\<close> and by the authentication
  decorators. An attribute read with a default (\<open>getattr(func, a, d)\<close>) is an option,
  \<open>None\<close> when the function has no such attribute. What the two collaborators derive from
  the function comes with it.
\<close>

record pyfunc =
  ident :: nat
  dunder_name :: string
  modernrpc_enabled :: "bool option"
  modernrpc_name :: "string option"
  modernrpc_entry_point :: selector
  modernrpc_protocol :: selector
  modernrpc_auth_predicates :: "pred_ref pyseq option"
  modernrpc_auth_predicates_params :: "pyval list pyseq option"
  introspection :: introspector
  docstring :: docstring_parser

definition Introspector :: "pyfunc \<Rightarrow> introspector" where
  "Introspector func = introspection func"

definition DocstringParser :: "pyfunc \<Rightarrow> docstring_parser" where
  "DocstringParser func = docstring func"

text \<open>
  Modelled from the spec: \<open>ensure_sequence\<close> of modernrpc.helpers, not part of the sources
  at hand. The spec has the descriptor's entry point or protocol "possibly single-valued,
  normalized to a sequence".
\<close>

fun ensure_sequence :: "selector \<Rightarrow> string list" where
  "ensure_sequence (One s) = [s]"
| "ensure_sequence (Many xs) = items xs"

section \<open>core.py: RPCMethod\<close>

text \<open>The attribute \<open>function\<close> is the field \<open>rpc_function\<close>.\<close>

record rpcmethod =
  rpc_function :: pyfunc
  entry_point :: selector
  protocol :: selector
  predicates :: "pred_ref pyseq option"
  predicates_params :: "pyval list pyseq"
  introspector :: introspector
  doc_parser :: docstring_parser

text \<open>\<open>RPCMethod.__init__\<close>. The default of \<open>modernrpc_auth_predicates_params\<close> is \<open>()\<close>.\<close>

definition RPCMethod :: "pyfunc \<Rightarrow> rpcmethod" where
  "RPCMethod func =
     \<lparr> rpc_function = func,
       entry_point = modernrpc_entry_point func,
       protocol = modernrpc_protocol func,
       predicates = modernrpc_auth_predicates func,
       predicates_params =
         (case modernrpc_auth_predicates_params func of
            Some ps \<Rightarrow> ps
          | None \<Rightarrow> PyTuple []),
       introspector = Introspector func,
       doc_parser = DocstringParser func \<rparr>"

text \<open>\<open>getattr(func, 'modernrpc_name', func.__name__)\<close>.\<close>

definition func_name :: "pyfunc \<Rightarrow> string" where
  "func_name func =
     (case modernrpc_name func of Some n \<Rightarrow> n | None \<Rightarrow> dunder_name func)"

text \<open>The property \<open>RPCMethod.name\<close>.\<close>

definition name :: "rpcmethod \<Rightarrow> string" where
  "name m = func_name (rpc_function m)"

text \<open>
  \<open>RPCMethod.__eq__\<close>. Two function objects are equal when they are the same object;
  the parameters of the predicates are compared as values.
\<close>

definition rpc_eq :: "rpcmethod \<Rightarrow> rpcmethod \<Rightarrow> bool" where
  "rpc_eq self other \<longleftrightarrow>
     ident (rpc_function self) = ident (rpc_function other) \<and>
     name self = name other \<and>
     entry_point self = entry_point other \<and>
     protocol self = protocol other \<and>
     predicates self = predicates other \<and>
     predicates_params self = predicates_params other"

text \<open>
  The generator of \<open>check_permissions\<close>: \<open>all\<close> consumes it from index \<open>i\<close> on and stops
  at the first predicate that returns false. \<open>predicates_params[i]\<close> is read before the
  predicate is called and raises IndexError out of range. \<open>call p request ps\<close> is the call
  \<open>p(request, *ps)\<close> of the predicate behind the reference \<open>p\<close>.
\<close>

fun all_predicates ::
  "(pred_ref \<Rightarrow> 'r \<Rightarrow> pyval list \<Rightarrow> bool) \<Rightarrow> 'r \<Rightarrow> pyval list list \<Rightarrow> nat \<Rightarrow> pred_ref list
     \<Rightarrow> pyerror + bool" where
  "all_predicates call request params i [] = Inr True"
| "all_predicates call request params i (predicate # rest) =
     (if i < length params then
        (if call predicate request (params ! i)
         then all_predicates call request params (Suc i) rest
         else Inr False)
      else Inl IndexError)"

definition check_permissions ::
  "(pred_ref \<Rightarrow> 'r \<Rightarrow> pyval list \<Rightarrow> bool) \<Rightarrow> rpcmethod \<Rightarrow> 'r \<Rightarrow> pyerror + bool" where
  "check_permissions call self request =
     (case predicates self of
        None \<Rightarrow> Inr True
      | Some ps \<Rightarrow>
          if items ps = [] then Inr True
          else all_predicates call request (items (predicates_params self)) 0 (items ps))"

definition available_for_protocol :: "rpcmethod \<Rightarrow> string \<Rightarrow> bool" where
  "available_for_protocol self proto =
     (if protocol self = One ALL' \<or> proto = ALL' then True
      else proto \<in> set (ensure_sequence (protocol self)))"

definition available_for_entry_point :: "rpcmethod \<Rightarrow> string \<Rightarrow> bool" where
  "available_for_entry_point self ep =
     (if entry_point self = One ALL' \<or> ep = ALL' then True
      else ep \<in> set (ensure_sequence (entry_point self)))"

definition is_valid_for :: "rpcmethod \<Rightarrow> string \<Rightarrow> string \<Rightarrow> bool" where
  "is_valid_for self ep proto \<longleftrightarrow>
     available_for_entry_point self ep \<and> available_for_protocol self proto"

text \<open>The cached properties \<open>args_doc\<close> and \<open>return_doc\<close>.\<close>

record arg_doc =
  doc_type :: string
  doc_text :: string

definition args_doc :: "rpcmethod \<Rightarrow> (string \<times> arg_doc) list" where
  "args_doc self =
     fold (\<lambda>arg result.
             dict_set result arg
               \<lparr> doc_type = str_or (dict_get (doc_args_types (doc_parser self)) arg [])
                                    (dict_get (intro_args_types (introspector self)) arg []),
                 doc_text = dict_get (doc_args_doc (doc_parser self)) arg [] \<rparr>)
          (intro_args (introspector self)) []"

definition return_doc :: "rpcmethod \<Rightarrow> arg_doc" where
  "return_doc self =
     \<lparr> doc_type = str_or (doc_return_type (doc_parser self)) (intro_return_type (introspector self)),
       doc_text = doc_return_doc (doc_parser self) \<rparr>"

section \<open>core.py: the registry\<close>

text \<open>
  \<open>_RPCRegistry._registry\<close>, a dict from names to descriptors, as its items in insertion
  order. Every operation takes the registry and, when it can change it, returns it.
\<close>

type_synonym registry = "(string \<times> rpcmethod) list"

definition reset :: "registry \<Rightarrow> registry" where
  "reset reg = []"

definition get_method :: "registry \<Rightarrow> string \<Rightarrow> string \<Rightarrow> string \<Rightarrow> rpcmethod option" where
  "get_method reg n ep proto =
     (case map_of reg n of
        Some m \<Rightarrow> if is_valid_for m ep proto then Some m else None
      | None \<Rightarrow> None)"

text \<open>
  \<open>register_method\<close> returns the name or raises, and the registry after the call.
\<close>

definition register_method :: "registry \<Rightarrow> pyfunc \<Rightarrow> (pyerror + string) \<times> registry" where
  "register_method reg func =
     (if modernrpc_enabled func \<noteq> Some True then (Inl ImproperlyConfigured, reg)
      else if startswith (func_name func) ''rpc.'' then (Inl ImproperlyConfigured, reg)
      else
        let method = RPCMethod func in
        (case get_method reg (name method) ALL' ALL' of
           Some existing_method \<Rightarrow>
             if rpc_eq method existing_method then (Inr (name method), reg)
             else (Inl ImproperlyConfigured, reg)
         | None \<Rightarrow> (Inr (name method), dict_set reg (name method) method)))"

definition total_count :: "registry \<Rightarrow> nat" where
  "total_count reg = length reg"

definition get_all_method_names :: "registry \<Rightarrow> string \<Rightarrow> string \<Rightarrow> bool \<Rightarrow> string list" where
  "get_all_method_names reg ep proto sort_methods =
     (let method_names = map fst (filter (\<lambda>(n, m). is_valid_for m ep proto) reg)
      in if sort_methods then sort method_names else method_names)"

text \<open>
  \<open>sorted(self._registry.items())\<close> orders the items by name: the names of a dict are
  distinct, so no two descriptors are ever compared.
\<close>

definition get_all_methods :: "registry \<Rightarrow> string \<Rightarrow> string \<Rightarrow> bool \<Rightarrow> rpcmethod list" where
  "get_all_methods reg ep proto sort_methods =
     (if sort_methods then
        map snd (filter (\<lambda>(_, m). is_valid_for m ep proto) (sort_key fst reg))
      else map snd reg)"

section \<open>core.py: RpcRequest\<close>

text \<open>
  The attributes \<open>__init__\<close> sets, and \<open>attrs\<close> for any further attribute that
  \<open>setattr\<close> creates from the extra keyword arguments.
\<close>

record rpcrequest =
  request_id :: pyval
  method_name :: pyval
  args :: pyval
  kwargs :: pyval
  attrs :: "(string \<times> pyval) list"

text \<open>\<open>setattr(self, key, value)\<close>: an attribute that exists already is overwritten.\<close>

definition setattr :: "string \<times> pyval \<Rightarrow> rpcrequest \<Rightarrow> rpcrequest" where
  "setattr kv self =
     (let key = fst kv; v = snd kv in
      if key = ''request_id'' then self\<lparr>request_id := v\<rparr>
      else if key = ''method_name'' then self\<lparr>method_name := v\<rparr>
      else if key = ''args'' then self\<lparr>args := v\<rparr>
      else if key = ''kwargs'' then self\<lparr>kwargs := v\<rparr>
      else self\<lparr>attrs := dict_set (attrs self) key v\<rparr>)"

text \<open>
  \<open>RpcRequest.__init__(self, method_name, params=None, **kwargs)\<close>; the third argument is
  the dict of the extra keyword arguments. The constructor returns the request or raises.
\<close>

definition RpcRequest :: "pyval \<Rightarrow> pyval \<Rightarrow> (string \<times> pyval) list \<Rightarrow> pyerror + rpcrequest" where
  "RpcRequest mname params extra =
     (let self = \<lparr> request_id = PNone, method_name = mname,
                   args = PList [], kwargs = PDict [], attrs = [] \<rparr>
      in case (case params of
                 PNone \<Rightarrow> Inr self
               | PDict d \<Rightarrow> Inr (self\<lparr>kwargs := params\<rparr>)
               | PList xs \<Rightarrow> Inr (self\<lparr>args := params\<rparr>)
               | PSet xs \<Rightarrow> Inr (self\<lparr>args := params\<rparr>)
               | PTuple xs \<Rightarrow> Inr (self\<lparr>args := params\<rparr>)
               | _ \<Rightarrow> Inl ValueError) of
           Inl e \<Rightarrow> Inl e
         | Inr self' \<Rightarrow> Inr (fold setattr extra self'))"

section \<open>core.py: RpcResult\<close>

text \<open>The attribute \<open>request_id\<close> is the field \<open>result_request_id\<close>.\<close>

record rpcresult =
  result_request_id :: pyval
  response_is_error :: "bool option"
  data :: pyval

definition RpcResult :: "pyval \<Rightarrow> rpcresult" where
  "RpcResult rid = \<lparr> result_request_id = rid, response_is_error = None, data = PNone \<rparr>"

definition is_error :: "rpcresult \<Rightarrow> bool option" where
  "is_error self = response_is_error self"

definition set_success :: "pyval \<Rightarrow> rpcresult \<Rightarrow> rpcresult" where
  "set_success d self = self\<lparr>response_is_error := Some False, data := d\<rparr>"

definition set_error :: "pyval \<Rightarrow> pyval \<Rightarrow> pyval \<Rightarrow> rpcresult \<Rightarrow> rpcresult" where
  "set_error code message d self =
     self\<lparr>response_is_error := Some True, data := PTuple [code, message, d]\<rparr>"

text \<open>
  \<open>v[i]\<close> for a constant index \<open>i \<ge> 0\<close>. On a dict the index is a key, and the keys
  \<open>False\<close> and \<open>True\<close> are the keys 0 and 1.
\<close>

fun is_int_key :: "pyval \<Rightarrow> nat \<Rightarrow> bool" where
  "is_int_key (PInt k) i = (k = int i)"
| "is_int_key (PBool b) i = ((b \<and> i = 1) \<or> (\<not> b \<and> i = 0))"
| "is_int_key _ i = False"

fun py_getitem :: "pyval \<Rightarrow> nat \<Rightarrow> pyerror + pyval" where
  "py_getitem (PList xs) i = (if i < length xs then Inr (xs ! i) else Inl IndexError)"
| "py_getitem (PTuple xs) i = (if i < length xs then Inr (xs ! i) else Inl IndexError)"
| "py_getitem (PStr s) i = (if i < length s then Inr (PStr [s ! i]) else Inl IndexError)"
| "py_getitem (PDict d) i =
     (case find (\<lambda>kv. is_int_key (fst kv) i) d of
        Some kv \<Rightarrow> Inr (snd kv)
      | None \<Rightarrow> Inl KeyError)"
| "py_getitem _ i = Inl TypeError"

definition success_data :: "rpcresult \<Rightarrow> pyval" where
  "success_data self = data self"

definition error_code :: "rpcresult \<Rightarrow> pyerror + pyval" where
  "error_code self = py_getitem (data self) 0"

definition error_message :: "rpcresult \<Rightarrow> pyerror + pyval" where
  "error_message self = py_getitem (data self) 1"

definition error_data :: "rpcresult \<Rightarrow> pyerror + pyval" where
  "error_data self = py_getitem (data self) 2"

section \<open>system_methods.py\<close>

definition system_list_methods :: "registry \<Rightarrow> string \<Rightarrow> string \<Rightarrow> string list" where
  "system_list_methods reg ep proto = get_all_method_names reg ep proto True"

text \<open>
  \<open>system.methodSignature\<close>; the entry point and the protocol are the two values the
  dispatcher passes in \<open>kwargs\<close>.
\<close>

definition system_method_signature ::
  "registry \<Rightarrow> string \<Rightarrow> string \<Rightarrow> string \<Rightarrow> pyerror + string list" where
  "system_method_signature reg mname ep proto =
     (case get_method reg mname ep proto of
        None \<Rightarrow> Inl RPCInvalidParams
      | Some method \<Rightarrow>
          let signature = [doc_type (return_doc method)] @
                          map (\<lambda>arg_doc. doc_type arg_doc) (map snd (args_doc method))
          in Inr (filter (\<lambda>t. t \<noteq> []) signature))"

definition system_method_help ::
  "registry \<Rightarrow> string \<Rightarrow> string \<Rightarrow> string \<Rightarrow> pyerror + string" where
  "system_method_help reg mname ep proto =
     (case get_method reg mname ep proto of
        None \<Rightarrow> Inl RPCInvalidParams
      | Some method \<Rightarrow> Inr (doc_html_doc (doc_parser method)))"

text \<open>\<open>call[key]\<close> and \<open>call.get(key)\<close> for a string key.\<close>

fun py_getitem_str :: "pyval \<Rightarrow> string \<Rightarrow> pyerror + pyval" where
  "py_getitem_str (PDict d) key =
     (case map_of d (PStr key) of Some v \<Rightarrow> Inr v | None \<Rightarrow> Inl KeyError)"
| "py_getitem_str _ key = Inl TypeError"

fun py_get :: "pyval \<Rightarrow> string \<Rightarrow> pyerror + pyval" where
  "py_get (PDict d) key = Inr (case map_of d (PStr key) of Some v \<Rightarrow> v | None \<Rightarrow> PNone)"
| "py_get _ key = Inl AttributeError"

text \<open>
  The request of one call descriptor:
  \<open>RpcRequest(call['methodName'], call.get('params'))\<close>.
\<close>

definition sub_request :: "pyval \<Rightarrow> pyerror + rpcrequest" where
  "sub_request call =
     (case py_getitem_str call ''methodName'' of
        Inl e \<Rightarrow> Inl e
      | Inr mname \<Rightarrow>
          (case py_get call ''params'' of
             Inl e \<Rightarrow> Inl e
           | Inr params \<Rightarrow> RpcRequest mname params []))"

text \<open>
  What the loop appends for one result: the fault struct of an error, read through
  \<open>error_code\<close> and \<open>error_message\<close>, or the success payload in a one-element list.
\<close>

definition multicall_entry :: "rpcresult \<Rightarrow> pyerror + pyval" where
  "multicall_entry rpc_result =
     (if is_error rpc_result = Some True then
        (case error_code rpc_result of
           Inl e \<Rightarrow> Inl e
         | Inr code \<Rightarrow>
             (case error_message rpc_result of
                Inl e \<Rightarrow> Inl e
              | Inr message \<Rightarrow>
                  Inr (PDict [(PStr ''faultCode'', code), (PStr ''faultString'', message)])))
      else Inr (PList [success_data rpc_result]))"

text \<open>
  The loop of \<open>system.multicall\<close>. \<open>process h rpc_request\<close> is
  \<open>handler.process_request(request, rpc_request)\<close> of the handler the dispatcher passes in
  \<open>kwargs\<close>: it returns the result of the sub-call, and \<open>h\<close> is everything the sub-calls
  can change. An exception leaves the loop with the state reached so far.
\<close>

fun multi_call_loop ::
  "('h \<Rightarrow> rpcrequest \<Rightarrow> rpcresult \<times> 'h) \<Rightarrow> 'h \<Rightarrow> pyval list \<Rightarrow> pyval list
     \<Rightarrow> (pyerror + pyval list) \<times> 'h" where
  "multi_call_loop process h [] results = (Inr results, h)"
| "multi_call_loop process h (call # calls) results =
     (case sub_request call of
        Inl e \<Rightarrow> (Inl e, h)
      | Inr rpc_request \<Rightarrow>
          (case process h rpc_request of
             (rpc_result, h') \<Rightarrow>
               (case multicall_entry rpc_result of
                  Inl e \<Rightarrow> (Inl e, h')
                | Inr entry \<Rightarrow> multi_call_loop process h' calls (results @ [entry]))))"

definition system_multi_call ::
  "('h \<Rightarrow> rpcrequest \<Rightarrow> rpcresult \<times> 'h) \<Rightarrow> 'h \<Rightarrow> pyval \<Rightarrow> (pyerror + pyval) \<times> 'h" where
  "system_multi_call process h calls =
     (case calls of
        PList cs \<Rightarrow>
          (case multi_call_loop process h cs [] of
             (Inl e, h') \<Rightarrow> (Inl e, h')
           | (Inr results, h') \<Rightarrow> (Inr (PList results), h'))
      | _ \<Rightarrow> (Inl RPCInvalidParams, h))"

section \<open>Notions used to state the properties\<close>

text \<open>
  The configured predicates of a descriptor, none when \<open>predicates\<close> is \<open>None\<close> or an empty
  sequence, and the parameter tuples bound to them by index.
\<close>

definition predicate_list :: "rpcmethod \<Rightarrow> pred_ref list" where
  "predicate_list m = (case predicates m of None \<Rightarrow> [] | Some ps \<Rightarrow> items ps)"

definition param_list :: "rpcmethod \<Rightarrow> pyval list list" where
  "param_list m = items (predicates_params m)"

text \<open>The parameters \<open>RpcRequest\<close> accepts: \<open>None\<close>, a dict, a list, a set or a tuple.\<close>

fun supported_params :: "pyval \<Rightarrow> bool" where
  "supported_params PNone = True"
| "supported_params (PDict d) = True"
| "supported_params (PList xs) = True"
| "supported_params (PSet xs) = True"
| "supported_params (PTuple xs) = True"
| "supported_params _ = False"

text \<open>
  A call descriptor of \<open>system.multicall\<close>: a struct with a \<open>methodName\<close> whose
  \<open>params\<close>, when present, are parameters \<open>RpcRequest\<close> accepts.
\<close>

fun call_descriptor :: "pyval \<Rightarrow> bool" where
  "call_descriptor (PDict d) =
     (case map_of d (PStr ''methodName'') of
        None \<Rightarrow> False
      | Some mname \<Rightarrow>
          (case map_of d (PStr ''params'') of
             None \<Rightarrow> True
           | Some params \<Rightarrow> supported_params params))"
| "call_descriptor _ = False"

text \<open>The requests of the calls that give one, in the order of the calls.\<close>

definition requests_of :: "pyval list \<Rightarrow> rpcrequest list" where
  "requests_of calls =
     concat (map (\<lambda>call. case sub_request call of Inl e \<Rightarrow> [] | Inr r \<Rightarrow> [r]) calls)"

text \<open>
  Every request dispatched, one after the other in the order given, whatever the results
  of the requests before it: the results in that order, and the state after the last.
\<close>

fun dispatch_all ::
  "('h \<Rightarrow> rpcrequest \<Rightarrow> rpcresult \<times> 'h) \<Rightarrow> 'h \<Rightarrow> rpcrequest list \<Rightarrow> rpcresult list \<times> 'h" where
  "dispatch_all process h [] = ([], h)"
| "dispatch_all process h (r # rs) =
     (case process h r of
        (res, h') \<Rightarrow>
          (case dispatch_all process h' rs of
             (ress, h'') \<Rightarrow> (res # ress, h'')))"

text \<open>A result whose outcome, if it is an error, is the triple \<open>set_error\<close> stores.\<close>

definition error_is_triple :: "rpcresult \<Rightarrow> bool" where
  "error_is_triple r =
     (if is_error r = Some True
      then (case data r of PTuple [c, m, d] \<Rightarrow> True | _ \<Rightarrow> False)
      else True)"

section \<open>Example declarations\<close>

definition no_docs :: docstring_parser where
  "no_docs = \<lparr> doc_raw_docstring = [], doc_html_doc = [], doc_args_doc = [],
               doc_args_types = [], doc_return_doc = [], doc_return_type = [] \<rparr>"

text \<open>\<open>@rpc_method def square(x: int) -> int\<close>, for every entry point and protocol.\<close>

definition square_func :: pyfunc where
  "square_func =
     \<lparr> ident = 1, dunder_name = ''square'', modernrpc_enabled = Some True,
       modernrpc_name = Some ''square'', modernrpc_entry_point = One ALL',
       modernrpc_protocol = One ALL', modernrpc_auth_predicates = None,
       modernrpc_auth_predicates_params = None,
       introspection = \<lparr> intro_args = [''x''], intro_args_types = [(''x'', ''int'')],
                         intro_return_type = ''int'', intro_accept_kwargs = False \<rparr>,
       docstring = no_docs \<rparr>"

text \<open>
  \<open>@rpc_method(name='echo', entry_point=['v1', 'v2'], protocol=XMLRPC_PROTOCOL)
  def echo_impl(a, b)\<close>, with no type declared anywhere.
\<close>

definition echo_func :: pyfunc where
  "echo_func =
     \<lparr> ident = 2, dunder_name = ''echo_impl'', modernrpc_enabled = Some True,
       modernrpc_name = Some ''echo'', modernrpc_entry_point = Many (PyList [''v1'', ''v2'']),
       modernrpc_protocol = One XMLRPC_PROTOCOL, modernrpc_auth_predicates = None,
       modernrpc_auth_predicates_params = None,
       introspection = \<lparr> intro_args = [''a'', ''b''], intro_args_types = [],
                         intro_return_type = [], intro_accept_kwargs = False \<rparr>,
       docstring = no_docs \<rparr>"

text \<open>Another function that also asks for the name \<open>square\<close>.\<close>

definition other_square_func :: pyfunc where
  "other_square_func = square_func\<lparr>ident := 3, dunder_name := ''square2''\<rparr>"

text \<open>A function that \<open>@rpc_method\<close> never decorated, and one with a reserved name.\<close>

definition plain_func :: pyfunc where
  "plain_func = square_func\<lparr>ident := 4, modernrpc_enabled := None, modernrpc_name := None\<rparr>"

definition reserved_func :: pyfunc where
  "reserved_func = square_func\<lparr>ident := 5, modernrpc_name := Some ''rpc.reserved''\<rparr>"

text \<open>
  A caller with the permissions it holds, and two predicates: 0 asks for a logged-in
  caller, 1 for every permission named in its parameters.
\<close>

record caller =
  authenticated :: bool
  permissions :: "pyval list"

fun call_predicate :: "pred_ref \<Rightarrow> caller \<Rightarrow> pyval list \<Rightarrow> bool" where
  "call_predicate 0 c ps = authenticated c"
| "call_predicate (Suc n) c ps = list_all (\<lambda>p. p \<in> set (permissions c)) ps"

definition guarded_func :: pyfunc where
  "guarded_func =
     square_func\<lparr>ident := 6, modernrpc_name := Some ''delete_user'',
       modernrpc_auth_predicates := Some (PyList [0, 1]),
       modernrpc_auth_predicates_params := Some (PyList [[], [PStr ''auth.delete_user'']])\<rparr>"

text \<open>The same with the parameters of the second predicate missing.\<close>

definition misaligned_func :: pyfunc where
  "misaligned_func = guarded_func\<lparr>modernrpc_auth_predicates_params := Some (PyList [[]])\<rparr>"

definition john_doe :: caller where
  "john_doe = \<lparr> authenticated = True, permissions = [] \<rparr>"

definition example_registry :: registry where
  "example_registry = [(''square'', RPCMethod square_func), (''echo'', RPCMethod echo_func)]"

text \<open>
  A handler that knows one method, \<open>add\<close> of two integers, and keeps the names of the
  methods it was asked for.
\<close>

fun example_process :: "pyval list \<Rightarrow> rpcrequest \<Rightarrow> rpcresult \<times> pyval list" where
  "example_process log r =
     (if method_name r = PStr ''add''
      then (case args r of
              PList [PInt a, PInt b] \<Rightarrow> set_success (PInt (a + b)) (RpcResult (request_id r))
            | _ \<Rightarrow> set_error (PInt (-32602)) (PStr ''Invalid params'') PNone (RpcResult (request_id r)))
      else set_error (PInt (-32601)) (PStr ''Method not found'') PNone (RpcResult (request_id r)),
      log @ [method_name r])"


text \<open>
  The argument of \<open>system.multicall\<close> in the spec's example, and one whose first call
  has an integer for \<open>params\<close>.
\<close>

definition example_calls :: "pyval list" where
  "example_calls =
     [PDict [(PStr ''methodName'', PStr ''add''), (PStr ''params'', PList [PInt 2, PInt 3])],
      PDict [(PStr ''methodName'', PStr ''missing'')]]"

definition malformed_calls :: "pyval list" where
  "malformed_calls =
     [PDict [(PStr ''methodName'', PStr ''add''), (PStr ''params'', PInt 5)],
      PDict [(PStr ''methodName'', PStr ''add''), (PStr ''params'', PList [PInt 2, PInt 3])]]"

section \<open>Resolution\<close>

lemma is_valid_for_ALL: "is_valid_for m ALL' ALL'"
  by (simp add: is_valid_for_def available_for_entry_point_def available_for_protocol_def)

lemma get_method_ALL: "get_method reg n ALL' ALL' = map_of reg n"
  by (simp add: get_method_def is_valid_for_ALL split: option.splits)

text \<open>
  Claim C1. For every registry, name, entry point and protocol (the wildcard \<open>ALL\<close> is
  one of the identifiers), \<open>get_method\<close> returns the descriptor stored under the name
  exactly when there is one and its \<open>is_valid_for\<close> holds for the entry point and the
  protocol, and returns \<open>None\<close> in every other case. It is a total function with no
  raising branch.
\<close>

theorem get_method_resolves:
  "(get_method reg n ep proto = Some m \<longleftrightarrow> map_of reg n = Some m \<and> is_valid_for m ep proto) \<and>
   (get_method reg n ep proto = None \<longleftrightarrow>
      \<not> (\<exists>m'. map_of reg n = Some m' \<and> is_valid_for m' ep proto))"
  by (auto simp: get_method_def split: option.splits)

theorem get_method_resolves_witness:
  "get_method example_registry ''echo'' ''v2'' XMLRPC_PROTOCOL = Some (RPCMethod echo_func) \<and>
   get_method example_registry ''echo'' ALL' ALL' = Some (RPCMethod echo_func) \<and>
   get_method example_registry ''echo'' ''v3'' XMLRPC_PROTOCOL = None \<and>
   get_method example_registry ''echo'' ''v2'' JSONRPC_PROTOCOL = None \<and>
   get_method example_registry ''missing'' ALL' ALL' = None"
proof -
  have stored: "map_of example_registry ''echo'' = Some (RPCMethod echo_func)"
    and absent: "map_of example_registry ''missing'' = None"
    by (simp_all add: example_registry_def)
  have valid: "is_valid_for (RPCMethod echo_func) ''v2'' XMLRPC_PROTOCOL"
    and v3: "\<not> is_valid_for (RPCMethod echo_func) ''v3'' XMLRPC_PROTOCOL"
    and json: "\<not> is_valid_for (RPCMethod echo_func) ''v2'' JSONRPC_PROTOCOL"
    by (simp_all add: is_valid_for_def available_for_entry_point_def available_for_protocol_def
          RPCMethod_def echo_func_def ALL'_def XMLRPC_PROTOCOL_def JSONRPC_PROTOCOL_def)
  show ?thesis
    using get_method_resolves [of example_registry "''echo''" "''v2''" XMLRPC_PROTOCOL "RPCMethod echo_func"]
      get_method_resolves [of example_registry "''echo''" ALL' ALL' "RPCMethod echo_func"]
      get_method_resolves [of example_registry "''echo''" "''v3''" XMLRPC_PROTOCOL]
      get_method_resolves [of example_registry "''echo''" "''v2''" JSONRPC_PROTOCOL]
      get_method_resolves [of example_registry "''missing''" ALL' ALL']
      stored absent valid v3 json is_valid_for_ALL [of "RPCMethod echo_func"]
    by simp
qed

section \<open>Authorization\<close>

lemma all_predicates_True_iff:
  "all_predicates call r params i ps = Inr True \<longleftrightarrow>
     (\<forall>j<length ps. i + j < length params \<and> call (ps ! j) r (params ! (i + j)))"
proof (induction ps arbitrary: i)
  case Nil
  show ?case by simp
next
  case (Cons p ps)
  show ?case
    by (simp add: Cons.IH All_less_Suc2 del: all_simps)
qed

lemma all_predicates_False:
  "\<exists>j<length ps. i + j < length params \<and> \<not> call (ps ! j) r (params ! (i + j))
     \<Longrightarrow> all_predicates call r params i ps = Inr False"
proof (induction ps arbitrary: i)
  case Nil
  then show ?case by simp
next
  case (Cons p ps)
  from Cons.prems obtain j where j: "j < Suc (length ps)" "i + j < length params"
    "\<not> call ((p # ps) ! j) r (params ! (i + j))" by auto
  show ?case
  proof (cases j)
    case 0
    with j show ?thesis by simp
  next
    case (Suc k)
    with j have "\<exists>j<length ps. Suc i + j < length params \<and> \<not> call (ps ! j) r (params ! (Suc i + j))"
      by auto
    from Cons.IH[OF this] j Suc show ?thesis by simp
  qed
qed

lemma all_predicates_IndexError:
  "i \<le> length params \<Longrightarrow> length params < i + length ps \<Longrightarrow>
   (\<forall>j<length ps. i + j < length params \<longrightarrow> call (ps ! j) r (params ! (i + j)))
     \<Longrightarrow> all_predicates call r params i ps = Inl IndexError"
proof (induction ps arbitrary: i)
  case Nil
  then show ?case by simp
next
  case (Cons p ps)
  show ?case
  proof (cases "i < length params")
    case False
    then show ?thesis by simp
  next
    case True
    from Cons.prems(3) True have c: "call p r (params ! i)" by fastforce
    have "\<forall>j<length ps. Suc i + j < length params \<longrightarrow> call (ps ! j) r (params ! (Suc i + j))"
      using Cons.prems(3) by fastforce
    with Cons.IH[of "Suc i"] True Cons.prems(2) c show ?thesis by simp
  qed
qed

lemma all_predicates_total:
  "i + length ps \<le> length params \<Longrightarrow> \<exists>b. all_predicates call r params i ps = Inr b"
  by (induction ps arbitrary: i) auto

lemma check_permissions_unfold:
  "check_permissions call m request =
     (if predicate_list m = [] then Inr True
      else all_predicates call request (param_list m) 0 (predicate_list m))"
  by (simp add: check_permissions_def predicate_list_def param_list_def split: option.splits)

text \<open>
  Claim C3. \<open>check_permissions\<close> returns true when no predicate is configured
  (\<open>None\<close> or an empty sequence). Otherwise it returns true exactly when every configured
  predicate has parameters bound at its index and returns true on the caller context and
  these parameters. If one of the predicates returns false on the caller context and the
  parameters at its index, the result is false.
\<close>

theorem check_permissions_conjunction:
  "(predicate_list m = [] \<longrightarrow> check_permissions call m request = Inr True) \<and>
   (predicate_list m \<noteq> [] \<longrightarrow>
      (check_permissions call m request = Inr True \<longleftrightarrow>
         (\<forall>i<length (predicate_list m).
             i < length (param_list m) \<and>
             call (predicate_list m ! i) request (param_list m ! i)))) \<and>
   ((\<exists>i<length (predicate_list m).
        i < length (param_list m) \<and>
        \<not> call (predicate_list m ! i) request (param_list m ! i))
      \<longrightarrow> check_permissions call m request = Inr False)"
proof (intro conjI impI)
  assume "predicate_list m = []"
  then show "check_permissions call m request = Inr True"
    by (simp add: check_permissions_unfold)
next
  assume "predicate_list m \<noteq> []"
  then show "check_permissions call m request = Inr True \<longleftrightarrow>
         (\<forall>i<length (predicate_list m).
             i < length (param_list m) \<and>
             call (predicate_list m ! i) request (param_list m ! i))"
    by (simp add: check_permissions_unfold all_predicates_True_iff)
next
  assume ex: "\<exists>i<length (predicate_list m).
        i < length (param_list m) \<and>
        \<not> call (predicate_list m ! i) request (param_list m ! i)"
  then have ne: "predicate_list m \<noteq> []" by auto
  from ex have "all_predicates call request (param_list m) 0 (predicate_list m) = Inr False"
    by (intro all_predicates_False) simp
  with ne show "check_permissions call m request = Inr False"
    by (simp add: check_permissions_unfold)
qed

lemma guarded_lists:
  "predicate_list (RPCMethod guarded_func) = [0, 1]"
  "param_list (RPCMethod guarded_func) = [[], [PStr ''auth.delete_user'']]"
  "predicate_list (RPCMethod misaligned_func) = [0, 1]"
  "param_list (RPCMethod misaligned_func) = [[]]"
  "predicate_list (RPCMethod square_func) = []"
  by (simp_all add: predicate_list_def param_list_def RPCMethod_def guarded_func_def
        misaligned_func_def square_func_def)

theorem check_permissions_conjunction_witness:
  "predicate_list (RPCMethod square_func) = [] \<and>
   check_permissions call_predicate (RPCMethod square_func) john_doe = Inr True \<and>
   predicate_list (RPCMethod guarded_func) \<noteq> [] \<and>
   check_permissions call_predicate (RPCMethod guarded_func) john_doe = Inr False \<and>
   check_permissions call_predicate (RPCMethod guarded_func)
     (john_doe\<lparr>permissions := [PStr ''auth.delete_user'']\<rparr>) = Inr True"
proof -
  have no: "\<exists>i<length (predicate_list (RPCMethod guarded_func)).
        i < length (param_list (RPCMethod guarded_func)) \<and>
        \<not> call_predicate (predicate_list (RPCMethod guarded_func) ! i) john_doe
            (param_list (RPCMethod guarded_func) ! i)"
    by (rule exI [of _ 1]) (simp add: guarded_lists john_doe_def)
  have yes: "\<forall>i<length (predicate_list (RPCMethod guarded_func)).
        i < length (param_list (RPCMethod guarded_func)) \<and>
        call_predicate (predicate_list (RPCMethod guarded_func) ! i)
            (john_doe\<lparr>permissions := [PStr ''auth.delete_user'']\<rparr>)
            (param_list (RPCMethod guarded_func) ! i)"
    by (simp add: guarded_lists john_doe_def All_less_Suc2 numeral_2_eq_2)
  show ?thesis
    using check_permissions_conjunction [of "RPCMethod square_func" call_predicate john_doe]
      check_permissions_conjunction [of "RPCMethod guarded_func" call_predicate john_doe]
      check_permissions_conjunction [of "RPCMethod guarded_func" call_predicate
        "john_doe\<lparr>permissions := [PStr ''auth.delete_user'']\<rparr>"]
      no yes
    by (simp add: guarded_lists)
qed

text \<open>
  Claim C10. When there are more predicates than parameter tuples and every predicate
  that has a parameter tuple at its index returns true, \<open>check_permissions\<close> reads
  \<open>predicates_params\<close> out of range and raises IndexError instead of returning a boolean.
  When there are at least as many parameter tuples as predicates it returns a boolean.
\<close>

theorem check_permissions_index_error:
  "(length (param_list m) < length (predicate_list m) \<and>
    (\<forall>i<length (param_list m). call (predicate_list m ! i) request (param_list m ! i))
      \<longrightarrow> check_permissions call m request = Inl IndexError) \<and>
   (length (predicate_list m) \<le> length (param_list m)
      \<longrightarrow> (\<exists>b. check_permissions call m request = Inr b))"
proof (intro conjI impI)
  assume a: "length (param_list m) < length (predicate_list m) \<and>
    (\<forall>i<length (param_list m). call (predicate_list m ! i) request (param_list m ! i))"
  then have ne: "predicate_list m \<noteq> []" by auto
  from a have "all_predicates call request (param_list m) 0 (predicate_list m) = Inl IndexError"
    by (intro all_predicates_IndexError) simp_all
  with ne show "check_permissions call m request = Inl IndexError"
    by (simp add: check_permissions_unfold)
next
  assume "length (predicate_list m) \<le> length (param_list m)"
  then have "\<exists>b. all_predicates call request (param_list m) 0 (predicate_list m) = Inr b"
    by (intro all_predicates_total) simp
  then show "\<exists>b. check_permissions call m request = Inr b"
    by (auto simp: check_permissions_unfold)
qed

theorem check_permissions_index_error_witness:
  "length (param_list (RPCMethod misaligned_func)) < length (predicate_list (RPCMethod misaligned_func)) \<and>
   call_predicate (predicate_list (RPCMethod misaligned_func) ! 0) john_doe
     (param_list (RPCMethod misaligned_func) ! 0) \<and>
   check_permissions call_predicate (RPCMethod misaligned_func) john_doe = Inl IndexError \<and>
   length (predicate_list (RPCMethod guarded_func)) \<le> length (param_list (RPCMethod guarded_func)) \<and>
   (\<exists>b. check_permissions call_predicate (RPCMethod guarded_func) john_doe = Inr b)"
  using check_permissions_index_error [of "RPCMethod misaligned_func" call_predicate john_doe]
    check_permissions_index_error [of "RPCMethod guarded_func" call_predicate john_doe]
  by (simp add: guarded_lists john_doe_def)


section \<open>Registration\<close>

lemma map_of_dict_set_same: "map_of (dict_set d k v) k = Some v"
  by (induction d) auto

lemma map_of_dict_set_other: "k' \<noteq> k \<Longrightarrow> map_of (dict_set d k v) k' = map_of d k'"
  by (induction d) auto

lemma length_dict_set_new: "map_of d k = None \<Longrightarrow> length (dict_set d k v) = Suc (length d)"
  by (induction d) (auto split: if_splits)

lemma keys_dict_set: "set (map fst (dict_set d k v)) = insert k (set (map fst d))"
proof (induction d)
  case Nil
  show ?case by simp
next
  case (Cons kv d)
  obtain k' v' where kv: "kv = (k', v')" by (cases kv)
  show ?case
  proof (cases "k' = k")
    case True
    with kv show ?thesis by simp
  next
    case False
    with kv have "set (map fst (dict_set (kv # d) k v)) = insert k' (set (map fst (dict_set d k v)))"
      by simp
    also have "\<dots> = insert k' (insert k (set (map fst d)))"
      by (simp only: Cons.IH)
    finally show ?thesis using kv by auto
  qed
qed

lemma distinct_dict_set:
  "distinct (map fst d) \<Longrightarrow> distinct (map fst (dict_set d k v))"
proof (induction d)
  case Nil
  show ?case by simp
next
  case (Cons kv d)
  obtain k' v' where kv: "kv = (k', v')" by (cases kv)
  show ?case
  proof (cases "k' = k")
    case True
    with Cons.prems kv show ?thesis by simp
  next
    case False
    from Cons.prems kv have "k' \<notin> set (map fst d)" and "distinct (map fst d)" by auto
    with False Cons.IH kv keys_dict_set [of d k v] show ?thesis
      by (simp del: set_map)
  qed
qed

lemma rpc_eq_refl: "rpc_eq m m"
  by (simp add: rpc_eq_def)

lemma rpc_eq_sym: "rpc_eq a b \<Longrightarrow> rpc_eq b a"
  by (simp add: rpc_eq_def)

lemma rpc_eq_trans: "rpc_eq a b \<Longrightarrow> rpc_eq b c \<Longrightarrow> rpc_eq a c"
  by (simp add: rpc_eq_def)

lemma name_RPCMethod: "name (RPCMethod func) = func_name func"
  by (simp add: name_def RPCMethod_def)

lemma register_method_cases:
  "register_method reg func =
     (if modernrpc_enabled func \<noteq> Some True then (Inl ImproperlyConfigured, reg)
      else if startswith (func_name func) ''rpc.'' then (Inl ImproperlyConfigured, reg)
      else case map_of reg (func_name func) of
             Some existing_method \<Rightarrow>
               if rpc_eq (RPCMethod func) existing_method then (Inr (func_name func), reg)
               else (Inl ImproperlyConfigured, reg)
           | None \<Rightarrow>
               (Inr (func_name func), dict_set reg (func_name func) (RPCMethod func)))"
  by (simp add: register_method_def Let_def get_method_ALL name_RPCMethod split: option.splits)

lemma register_method_stored:
  assumes "register_method reg func = (Inr n, reg')"
  shows "n = func_name func \<and> modernrpc_enabled func = Some True \<and>
         \<not> startswith (func_name func) ''rpc.'' \<and>
         (\<exists>stored. map_of reg' n = Some stored \<and> rpc_eq (RPCMethod func) stored)"
  using assms
  by (auto simp: register_method_cases map_of_dict_set_same rpc_eq_refl
      split: if_splits option.splits)

lemma register_method_keeps:
  assumes "register_method reg func = (res, reg')" and "map_of reg k = Some m"
  shows "map_of reg' k = Some m"
proof (cases "map_of reg (func_name func)")
  case None
  with assms(2) have "k \<noteq> func_name func" by auto
  with assms None show ?thesis
    by (auto simp: register_method_cases map_of_dict_set_other split: if_splits)
next
  case (Some existing_method)
  with assms show ?thesis
    by (auto simp: register_method_cases split: if_splits)
qed

text \<open>
  Claim C4. Registering a declaration whose descriptor is equal (\<open>__eq__\<close>) to the one
  stored under its name is idempotent, in any registry and whatever else the registry
  holds: for a marked declaration with a name that is not reserved, \<open>register_method\<close>
  returns the name and leaves the registry, and so \<open>total_count\<close>, as it was. That name
  is the one every successful registration of the declaration returns, and a successful
  registration leaves such a descriptor stored under it, so that registering the same
  declaration again, or any marked declaration with an equal descriptor, returns the same
  name and changes nothing. No registration, successful or not, removes or replaces a
  descriptor stored before, so this stays so after any further registrations.
\<close>

theorem register_method_idempotent:
  "(map_of reg (func_name func) = Some stored \<and> rpc_eq (RPCMethod func) stored \<and>
    modernrpc_enabled func = Some True \<and> \<not> startswith (func_name func) ''rpc.''
      \<longrightarrow> register_method reg func = (Inr (func_name func), reg) \<and>
          total_count (snd (register_method reg func)) = total_count reg) \<and>
   (register_method reg0 func = (Inr n, reg1)
      \<longrightarrow> n = func_name func \<and>
          modernrpc_enabled func = Some True \<and> \<not> startswith (func_name func) ''rpc.'' \<and>
          (\<exists>first. map_of reg1 (func_name func) = Some first \<and> rpc_eq (RPCMethod func) first) \<and>
          register_method reg1 func = (Inr n, reg1) \<and>
          total_count (snd (register_method reg1 func)) = total_count reg1 \<and>
          (\<forall>func'. modernrpc_enabled func' = Some True \<and>
                   rpc_eq (RPCMethod func') (RPCMethod func)
             \<longrightarrow> register_method reg1 func' = (Inr n, reg1))) \<and>
   (register_method reg other = (res, reg') \<and> map_of reg k = Some m
      \<longrightarrow> map_of reg' k = Some m)"
proof (intro conjI impI)
  assume "map_of reg (func_name func) = Some stored \<and> rpc_eq (RPCMethod func) stored \<and>
    modernrpc_enabled func = Some True \<and> \<not> startswith (func_name func) ''rpc.''"
  then have same: "register_method reg func = (Inr (func_name func), reg)"
    by (simp add: register_method_cases)
  then show "register_method reg func = (Inr (func_name func), reg)" .
  from same show "total_count (snd (register_method reg func)) = total_count reg" by simp
next
  assume first: "register_method reg0 func = (Inr n, reg1)"
  from register_method_stored [OF first] obtain stored1 where
    n: "n = func_name func" and en: "modernrpc_enabled func = Some True" and
    res: "\<not> startswith (func_name func) ''rpc.''" and
    st: "map_of reg1 n = Some stored1" and eq: "rpc_eq (RPCMethod func) stored1"
    by blast
  have again: "register_method reg1 func' = (Inr n, reg1)"
    if "modernrpc_enabled func' = Some True" "rpc_eq (RPCMethod func') (RPCMethod func)" for func'
  proof -
    from that(2) have nm: "func_name func' = func_name func"
      by (simp add: rpc_eq_def name_RPCMethod)
    from that(2) eq have "rpc_eq (RPCMethod func') stored1" by (rule rpc_eq_trans)
    with that(1) nm n res st show ?thesis
      by (simp add: register_method_cases)
  qed
  show "n = func_name func" by (rule n)
  show "modernrpc_enabled func = Some True" by (rule en)
  show "\<not> startswith (func_name func) ''rpc.''" by (rule res)
  from st eq n
  show "\<exists>first. map_of reg1 (func_name func) = Some first \<and> rpc_eq (RPCMethod func) first"
    by auto
  from again [OF en rpc_eq_refl] show "register_method reg1 func = (Inr n, reg1)" .
  then show "total_count (snd (register_method reg1 func)) = total_count reg1" by simp
  from again show "\<forall>func'. modernrpc_enabled func' = Some True \<and>
                   rpc_eq (RPCMethod func') (RPCMethod func)
             \<longrightarrow> register_method reg1 func' = (Inr n, reg1)"
    by blast
next
  assume "register_method reg other = (res, reg') \<and> map_of reg k = Some m"
  then show "map_of reg' k = Some m"
    using register_method_keeps by blast
qed

theorem register_method_idempotent_witness:
  "register_method [] square_func = (Inr ''square'', [(''square'', RPCMethod square_func)]) \<and>
   register_method [(''square'', RPCMethod square_func)] echo_func = (Inr ''echo'', example_registry) \<and>
   map_of example_registry (func_name square_func) = Some (RPCMethod square_func) \<and>
   rpc_eq (RPCMethod square_func) (RPCMethod square_func) \<and>
   modernrpc_enabled square_func = Some True \<and>
   \<not> startswith (func_name square_func) ''rpc.'' \<and>
   register_method example_registry square_func = (Inr (func_name square_func), example_registry) \<and>
   total_count (snd (register_method example_registry square_func)) = total_count example_registry \<and>
   func_name square_func = ''square'' \<and>
   total_count example_registry = 2 \<and>
   register_method example_registry echo_func = (Inr ''echo'', example_registry)"
proof -
  have nm: "func_name square_func = ''square''"
    by (simp add: square_func_def func_name_def)
  have first: "register_method [] square_func = (Inr ''square'', [(''square'', RPCMethod square_func)])"
    unfolding register_method_cases nm by (simp add: square_func_def startswith_def)
  have nm2: "func_name echo_func = ''echo''"
    by (simp add: echo_func_def func_name_def)
  have second: "register_method [(''square'', RPCMethod square_func)] echo_func =
                  (Inr ''echo'', example_registry)"
    unfolding register_method_cases nm2
    by (simp add: example_registry_def echo_func_def startswith_def)
  have hyp: "map_of example_registry (func_name square_func) = Some (RPCMethod square_func) \<and>
             rpc_eq (RPCMethod square_func) (RPCMethod square_func) \<and>
             modernrpc_enabled square_func = Some True \<and>
             \<not> startswith (func_name square_func) ''rpc.''"
    unfolding nm by (simp add: example_registry_def rpc_eq_refl square_func_def startswith_def)
  have third: "register_method example_registry square_func =
                 (Inr (func_name square_func), example_registry) \<and>
               total_count (snd (register_method example_registry square_func)) =
                 total_count example_registry"
    using hyp
    by (rule register_method_idempotent
          [where reg = example_registry and func = square_func and stored = "RPCMethod square_func",
           THEN conjunct1, rule_format])
  have count: "total_count example_registry = 2"
    by (simp add: total_count_def example_registry_def)
  have again: "register_method example_registry echo_func = (Inr ''echo'', example_registry)"
    using second
    by (rule register_method_idempotent
          [where func = echo_func and reg0 = "[(''square'', RPCMethod square_func)]"
             and n = "''echo''" and ?reg1.0 = example_registry,
           THEN conjunct2, THEN conjunct1, rule_format,
           THEN conjunct2, THEN conjunct2, THEN conjunct2, THEN conjunct2, THEN conjunct1])
  from first second hyp third nm count again show ?thesis by (intro conjI) (elim conjE, assumption)+
qed

text \<open>
  Claim C5. \<open>register_method\<close> raises ImproperlyConfigured exactly when the declaration
  is not marked, or its name starts with \<open>rpc.\<close>, or a descriptor that is not equal to
  the declaration's is registered under its name. It raises nothing else, and whenever it
  raises, the registry and \<open>total_count\<close> are unchanged.
\<close>

theorem register_method_errors:
  "(fst (register_method reg func) = Inl ImproperlyConfigured \<longleftrightarrow>
      modernrpc_enabled func \<noteq> Some True \<or>
      startswith (func_name func) ''rpc.'' \<or>
      (\<exists>stored. map_of reg (func_name func) = Some stored \<and> \<not> rpc_eq (RPCMethod func) stored)) \<and>
   (\<forall>e. fst (register_method reg func) = Inl e \<longrightarrow>
      e = ImproperlyConfigured \<and>
      snd (register_method reg func) = reg \<and>
      total_count (snd (register_method reg func)) = total_count reg)"
  by (auto simp: register_method_cases split: option.splits)

theorem register_method_errors_witness:
  "register_method example_registry plain_func = (Inl ImproperlyConfigured, example_registry) \<and>
   register_method example_registry reserved_func = (Inl ImproperlyConfigured, example_registry) \<and>
   register_method example_registry other_square_func = (Inl ImproperlyConfigured, example_registry) \<and>
   total_count (snd (register_method example_registry other_square_func)) = 2"
proof -
  have a: "modernrpc_enabled plain_func \<noteq> Some True"
    by (simp add: plain_func_def square_func_def)
  have b: "startswith (func_name reserved_func) ''rpc.''"
    by (simp add: reserved_func_def square_func_def func_name_def startswith_def)
  have c: "map_of example_registry (func_name other_square_func) = Some (RPCMethod square_func) \<and>
           \<not> rpc_eq (RPCMethod other_square_func) (RPCMethod square_func)"
    by (simp add: example_registry_def other_square_func_def square_func_def func_name_def
          rpc_eq_def RPCMethod_def)
  have n: "total_count example_registry = 2"
    by (simp add: total_count_def example_registry_def)
  show ?thesis
    using register_method_errors [of example_registry plain_func]
      register_method_errors [of example_registry reserved_func]
      register_method_errors [of example_registry other_square_func] a b c n
    by (auto simp: prod_eq_iff)
qed


section \<open>Listing\<close>

lemma get_all_methods_sorted_set:
  "set (get_all_methods reg ep proto True) = {m. \<exists>n. (n, m) \<in> set reg \<and> is_valid_for m ep proto}"
  by (auto simp: get_all_methods_def image_iff)

lemma get_all_method_names_set:
  "set (get_all_method_names reg ep proto s) = {n. \<exists>m. (n, m) \<in> set reg \<and> is_valid_for m ep proto}"
  by (auto simp: get_all_method_names_def Let_def image_iff)

lemma echo_validity:
  "\<not> is_valid_for (RPCMethod echo_func) ''v3'' JSONRPC_PROTOCOL"
  "is_valid_for (RPCMethod square_func) ''v3'' JSONRPC_PROTOCOL"
  by (simp_all add: is_valid_for_def available_for_entry_point_def available_for_protocol_def
        RPCMethod_def echo_func_def square_func_def ALL'_def XMLRPC_PROTOCOL_def JSONRPC_PROTOCOL_def)

text \<open>
  Claim C6. The claim has \<open>get_all_methods\<close> return, for either value of the sorted
  flag, the descriptors that are valid for the entry point and the protocol. Without
  sorting the code returns every descriptor of the registry: here \<open>echo\<close>, which is
  not valid for entry point \<open>v3\<close> under JSON-RPC, is returned all the same, while
  \<open>get_all_method_names\<close> and the sorted path leave it out.
\<close>

theorem get_all_methods_unsorted_unfiltered:
  "get_all_methods example_registry ''v3'' JSONRPC_PROTOCOL False =
     [RPCMethod square_func, RPCMethod echo_func] \<and>
   \<not> is_valid_for (RPCMethod echo_func) ''v3'' JSONRPC_PROTOCOL \<and>
   get_all_method_names example_registry ''v3'' JSONRPC_PROTOCOL False = [''square''] \<and>
   get_all_methods example_registry ''v3'' JSONRPC_PROTOCOL True = [RPCMethod square_func]"
proof -
  have "sort_key fst example_registry = [(''echo'', RPCMethod echo_func), (''square'', RPCMethod square_func)]"
    by (simp add: example_registry_def less_eq_char_def)
  then show ?thesis
    by (simp add: get_all_methods_def get_all_method_names_def echo_validity)
      (simp add: example_registry_def echo_validity)
qed

section \<open>Results\<close>

text \<open>
  Claim C7, as stated, fails: a fresh result holds neither outcome, and \<open>set_error\<close>
  after \<open>set_success\<close> replaces the payload by the error triple.
\<close>

theorem rpc_result_overwritten:
  "is_error (RpcResult PNone) = None \<and>
   is_error (set_success (PInt 5) (RpcResult PNone)) = Some False \<and>
   success_data (set_success (PInt 5) (RpcResult PNone)) = PInt 5 \<and>
   is_error (set_error (PInt 1) (PStr ''boom'') PNone (set_success (PInt 5) (RpcResult PNone))) = Some True \<and>
   success_data (set_error (PInt 1) (PStr ''boom'') PNone (set_success (PInt 5) (RpcResult PNone)))
     = PTuple [PInt 1, PStr ''boom'', PNone]"
  by (simp add: is_error_def set_success_def set_error_def success_data_def RpcResult_def)

text \<open>
  Claim C7, amended. A fresh result holds no outcome (\<open>is_error\<close> is \<open>None\<close>). After
  \<open>set_success\<close> or \<open>set_error\<close> on any result, fresh or not, the result holds the
  outcome of that call: the payload with \<open>is_error\<close> false, or the triple of code,
  message and data with \<open>is_error\<close> true. The request id is kept.
\<close>

theorem rpc_result_latest_outcome:
  "is_error (RpcResult rid) = None \<and>
   data (RpcResult rid) = PNone \<and>
   is_error (set_success d r) = Some False \<and>
   success_data (set_success d r) = d \<and>
   is_error (set_error c m d r) = Some True \<and>
   error_code (set_error c m d r) = Inr c \<and>
   error_message (set_error c m d r) = Inr m \<and>
   error_data (set_error c m d r) = Inr d \<and>
   result_request_id (set_success d r) = result_request_id r \<and>
   result_request_id (set_error c m d r) = result_request_id r"
  by (simp add: is_error_def set_success_def set_error_def success_data_def RpcResult_def
      error_code_def error_message_def error_data_def)

section \<open>Signatures\<close>

lemma dict_set_new: "k \<notin> set (map fst d) \<Longrightarrow> dict_set d k v = d @ [(k, v)]"
  by (induction d) auto

lemma fold_dict_set_distinct:
  "distinct ks \<Longrightarrow> set ks \<inter> set (map fst acc) = {} \<Longrightarrow>
   fold (\<lambda>k r. dict_set r k (f k)) ks acc = acc @ map (\<lambda>k. (k, f k)) ks"
proof (induction ks arbitrary: acc)
  case Nil
  show ?case by simp
next
  case (Cons k ks)
  from Cons.prems have new: "k \<notin> set (map fst acc)" by auto
  from Cons.prems have "set ks \<inter> set (map fst (acc @ [(k, f k)])) = {}" by auto
  with Cons.prems Cons.IH [of "acc @ [(k, f k)]"] new show ?case
    by (simp add: dict_set_new)
qed

lemma args_doc_distinct:
  assumes "distinct (intro_args (introspector m))"
  shows "map (\<lambda>d. doc_type d) (map snd (args_doc m)) =
         map (\<lambda>arg. str_or (dict_get (doc_args_types (doc_parser m)) arg [])
                           (dict_get (intro_args_types (introspector m)) arg []))
             (intro_args (introspector m))"
proof -
  let ?entry = "\<lambda>arg. \<lparr> doc_type = str_or (dict_get (doc_args_types (doc_parser m)) arg [])
                                         (dict_get (intro_args_types (introspector m)) arg []),
                        doc_text = dict_get (doc_args_doc (doc_parser m)) arg [] \<rparr>"
  have "args_doc m = map (\<lambda>arg. (arg, ?entry arg)) (intro_args (introspector m))"
    unfolding args_doc_def
    using fold_dict_set_distinct [OF assms, of "[]" ?entry] by simp
  then show ?thesis by (simp add: comp_def)
qed

text \<open>
  Claim C8. When the name does not resolve for the entry point and the protocol,
  \<open>system.methodSignature\<close> raises RPCInvalidParams. When it resolves to a method (whose
  argument names are distinct, as those of a Python function are), the result is the
  return type followed by the type of every argument in declaration order, the empty
  strings filtered out.
\<close>

theorem system_method_signature_types:
  "(get_method reg mname ep proto = None \<longrightarrow>
      system_method_signature reg mname ep proto = Inl RPCInvalidParams) \<and>
   (\<forall>m. get_method reg mname ep proto = Some m \<and> distinct (intro_args (introspector m)) \<longrightarrow>
      system_method_signature reg mname ep proto =
        Inr (filter (\<lambda>t. t \<noteq> [])
               (doc_type (return_doc m) #
                map (\<lambda>arg. str_or (dict_get (doc_args_types (doc_parser m)) arg [])
                                  (dict_get (intro_args_types (introspector m)) arg []))
                    (intro_args (introspector m)))))"
  by (auto simp: system_method_signature_def args_doc_distinct simp del: map_map)

theorem system_method_signature_types_witness:
  "system_method_signature example_registry ''square'' ''v1'' JSONRPC_PROTOCOL = Inr [''int'', ''int''] \<and>
   system_method_signature example_registry ''echo'' ''v1'' XMLRPC_PROTOCOL = Inr [] \<and>
   system_method_signature example_registry ''echo'' ''v1'' JSONRPC_PROTOCOL = Inl RPCInvalidParams"
proof -
  have sq: "get_method example_registry ''square'' ''v1'' JSONRPC_PROTOCOL = Some (RPCMethod square_func)"
    and ec: "get_method example_registry ''echo'' ''v1'' XMLRPC_PROTOCOL = Some (RPCMethod echo_func)"
    and no: "get_method example_registry ''echo'' ''v1'' JSONRPC_PROTOCOL = None"
    by (simp_all add: get_method_def example_registry_def is_valid_for_def
          available_for_entry_point_def available_for_protocol_def RPCMethod_def echo_func_def
          square_func_def ALL'_def XMLRPC_PROTOCOL_def JSONRPC_PROTOCOL_def)
  have d1: "distinct (intro_args (introspector (RPCMethod square_func)))"
    and d2: "distinct (intro_args (introspector (RPCMethod echo_func)))"
    by (simp_all add: RPCMethod_def Introspector_def square_func_def echo_func_def)
  show ?thesis
    using system_method_signature_types [of example_registry "''square''" "''v1''" JSONRPC_PROTOCOL]
      system_method_signature_types [of example_registry "''echo''" "''v1''" XMLRPC_PROTOCOL]
      system_method_signature_types [of example_registry "''echo''" "''v1''" JSONRPC_PROTOCOL]
      sq ec no d1 d2
    by (simp add: return_doc_def RPCMethod_def Introspector_def DocstringParser_def
          square_func_def echo_func_def no_docs_def str_or_def dict_get_def)
qed

section \<open>Requests\<close>

lemma setattr_keeps:
  "fst kv \<noteq> ''args'' \<Longrightarrow> fst kv \<noteq> ''kwargs'' \<Longrightarrow>
   args (setattr kv r) = args r \<and> kwargs (setattr kv r) = kwargs r"
  by (simp add: setattr_def Let_def)

lemma fold_setattr_keeps:
  "''args'' \<notin> fst ` set extra \<Longrightarrow> ''kwargs'' \<notin> fst ` set extra \<Longrightarrow>
   args (fold setattr extra r) = args r \<and> kwargs (fold setattr extra r) = kwargs r"
proof (induction extra arbitrary: r)
  case Nil
  show ?case by simp
next
  case (Cons kv extra)
  from Cons.prems have "fst kv \<noteq> ''args''" "fst kv \<noteq> ''kwargs''" by auto
  from setattr_keeps [OF this, of r] Cons.IH [of "setattr kv r"] Cons.prems
  show ?case by simp
qed

text \<open>
  Claim C9, as stated, fails: with a dict for the parameters and an extra keyword
  argument \<open>args\<close>, both \<open>kwargs\<close> and \<open>args\<close> are populated.
\<close>

theorem rpc_request_extra_overrides:
  "RpcRequest (PStr ''add'') (PDict [(PStr ''a'', PInt 1)]) [(''args'', PList [PInt 5])] =
     Inr \<lparr> request_id = PNone, method_name = PStr ''add'', args = PList [PInt 5],
           kwargs = PDict [(PStr ''a'', PInt 1)], attrs = [] \<rparr>"
  by (simp add: RpcRequest_def setattr_def)

text \<open>
  Claim C9, amended. Parameters that are not \<open>None\<close>, a dict, a list, a set or a tuple
  make the constructor raise ValueError, whatever the extra keyword arguments. When no
  extra keyword argument is named \<open>args\<close> or \<open>kwargs\<close>: a dict is stored in \<open>kwargs\<close>
  and \<open>args\<close> stays the empty list; a list, set or tuple is stored in \<open>args\<close> and
  \<open>kwargs\<close> stays the empty dict; \<open>None\<close> leaves both empty.
\<close>

theorem rpc_request_params:
  "(\<not> supported_params params \<longrightarrow> RpcRequest mname params extra = Inl ValueError) \<and>
   (''args'' \<notin> fst ` set extra \<and> ''kwargs'' \<notin> fst ` set extra \<longrightarrow>
      ((\<exists>d. params = PDict d) \<longrightarrow>
         (\<exists>r. RpcRequest mname params extra = Inr r \<and> kwargs r = params \<and> args r = PList [])) \<and>
      ((\<exists>xs. params = PList xs \<or> params = PSet xs \<or> params = PTuple xs) \<longrightarrow>
         (\<exists>r. RpcRequest mname params extra = Inr r \<and> args r = params \<and> kwargs r = PDict [])) \<and>
      (params = PNone \<longrightarrow>
         (\<exists>r. RpcRequest mname params extra = Inr r \<and> args r = PList [] \<and> kwargs r = PDict [])))"
proof (intro conjI impI)
  assume "\<not> supported_params params"
  then show "RpcRequest mname params extra = Inl ValueError"
    by (cases params) (simp_all add: RpcRequest_def)
next
  assume e: "''args'' \<notin> fst ` set extra \<and> ''kwargs'' \<notin> fst ` set extra"
  note keep = fold_setattr_keeps [of extra]
  {
    assume "\<exists>d. params = PDict d"
    with e keep show "\<exists>r. RpcRequest mname params extra = Inr r \<and> kwargs r = params \<and> args r = PList []"
      by (auto simp: RpcRequest_def)
  }
  {
    assume "\<exists>xs. params = PList xs \<or> params = PSet xs \<or> params = PTuple xs"
    with e keep show "\<exists>r. RpcRequest mname params extra = Inr r \<and> args r = params \<and> kwargs r = PDict []"
      by (auto simp: RpcRequest_def)
  }
  {
    assume "params = PNone"
    with e keep show "\<exists>r. RpcRequest mname params extra = Inr r \<and> args r = PList [] \<and> kwargs r = PDict []"
      by (auto simp: RpcRequest_def)
  }
qed

theorem rpc_request_params_witness:
  "RpcRequest (PStr ''add'') (PInt 5) [(''args'', PList [])] = Inl ValueError \<and>
   (\<exists>r. RpcRequest (PStr ''add'') (PDict [(PStr ''a'', PInt 1)]) [(''jsonrpc'', PStr ''2.0'')] = Inr r \<and>
        kwargs r = PDict [(PStr ''a'', PInt 1)] \<and> args r = PList []) \<and>
   (\<exists>r. RpcRequest (PStr ''add'') (PTuple [PInt 2, PInt 3]) [(''jsonrpc'', PStr ''2.0'')] = Inr r \<and>
        args r = PTuple [PInt 2, PInt 3] \<and> kwargs r = PDict [])"
  using rpc_request_params [of "PInt 5" "PStr ''add''" "[(''args'', PList [])]"]
    rpc_request_params [of "PDict [(PStr ''a'', PInt 1)]" "PStr ''add''" "[(''jsonrpc'', PStr ''2.0'')]"]
    rpc_request_params [of "PTuple [PInt 2, PInt 3]" "PStr ''add''" "[(''jsonrpc'', PStr ''2.0'')]"]
  by simp

section \<open>Multicall\<close>

lemma RpcRequest_supported:
  "supported_params params \<Longrightarrow> \<exists>r. RpcRequest mname params [] = Inr r"
  by (cases params) (simp_all add: RpcRequest_def)

lemma sub_request_descriptor:
  "call_descriptor c \<Longrightarrow> \<exists>r. sub_request c = Inr r"
proof (cases c)
  case (PDict d)
  assume "call_descriptor c"
  with PDict obtain mname where m: "map_of d (PStr ''methodName'') = Some mname"
    and p: "supported_params (case map_of d (PStr ''params'') of Some v \<Rightarrow> v | None \<Rightarrow> PNone)"
    by (auto split: option.splits)
  from RpcRequest_supported [OF p, of mname] m PDict show ?thesis
    by (simp add: sub_request_def)
qed simp_all

lemma requests_of_Cons:
  "sub_request c = Inr r \<Longrightarrow> requests_of (c # cs) = r # requests_of cs"
  by (simp add: requests_of_def)

lemma dispatch_all_Cons:
  "process h r = (res, h') \<Longrightarrow>
   dispatch_all process h (r # rs) =
     (res # fst (dispatch_all process h' rs), snd (dispatch_all process h' rs))"
  by (simp split: prod.splits)

lemma multicall_entry_total:
  "error_is_triple res \<Longrightarrow> \<exists>entry. multicall_entry res = Inr entry"
  by (auto simp: error_is_triple_def multicall_entry_def error_code_def error_message_def
      split: if_splits pyval.splits list.splits)

lemma multi_call_loop_all:
  assumes "\<forall>c\<in>set cs. call_descriptor c"
    and "\<forall>h r. error_is_triple (fst (process h r))"
  shows "\<exists>es. multi_call_loop process h cs acc =
                 (Inr (acc @ es), snd (dispatch_all process h (requests_of cs))) \<and>
              map multicall_entry (fst (dispatch_all process h (requests_of cs))) = map Inr es \<and>
              map sub_request cs = map Inr (requests_of cs)"
  using assms(1)
proof (induction cs arbitrary: h acc)
  case Nil
  show ?case by (simp add: requests_of_def)
next
  case (Cons c cs)
  from Cons.prems obtain r where r: "sub_request c = Inr r"
    using sub_request_descriptor [of c] by auto
  obtain res h' where p: "process h r = (res, h')" by (cases "process h r")
  from assms(2) p have "error_is_triple res" by (metis fst_conv)
  then obtain entry where en: "multicall_entry res = Inr entry"
    using multicall_entry_total by blast
  from Cons.prems have "\<forall>c\<in>set cs. call_descriptor c" by simp
  from Cons.IH [OF this, of h' "acc @ [entry]"] obtain es where
    es: "multi_call_loop process h' cs (acc @ [entry]) =
           (Inr ((acc @ [entry]) @ es), snd (dispatch_all process h' (requests_of cs)))"
        "map multicall_entry (fst (dispatch_all process h' (requests_of cs))) = map Inr es"
        "map sub_request cs = map Inr (requests_of cs)"
    by blast
  have d: "dispatch_all process h (r # requests_of cs) =
             (res # fst (dispatch_all process h' (requests_of cs)),
              snd (dispatch_all process h' (requests_of cs)))"
    using p by (rule dispatch_all_Cons)
  show ?case
    by (rule exI [of _ "entry # es"])
       (simp add: r p en es requests_of_Cons d del: dispatch_all.simps)
qed

lemma length_dispatch_all: "length (fst (dispatch_all process h rs)) = length rs"
proof (induction rs arbitrary: h)
  case Nil
  show ?case by simp
next
  case (Cons r rs)
  obtain res h' where p: "process h r = (res, h')" by (cases "process h r")
  from dispatch_all_Cons [of process h r res h' rs, OF p] Cons.IH [of h'] show ?case
    by (simp del: dispatch_all.simps)
qed

lemma map_eq_nth:
  "map f xs = map g ys \<Longrightarrow> i < length xs \<Longrightarrow> f (xs ! i) = g (ys ! i)"
proof -
  assume eq: "map f xs = map g ys" and i: "i < length xs"
  from eq have len: "length xs = length ys" by (rule map_eq_imp_length_eq)
  from eq have "map f xs ! i = map g ys ! i" by simp
  with i len show ?thesis by simp
qed

lemma multicall_entry_shape:
  assumes "multicall_entry res = Inr entry"
  shows "if is_error res = Some True
         then \<exists>code message. error_code res = Inr code \<and> error_message res = Inr message \<and>
                entry = PDict [(PStr ''faultCode'', code), (PStr ''faultString'', message)]
         else entry = PList [success_data res]"
  using assms by (auto simp: multicall_entry_def split: if_splits sum.splits)

text \<open>
  Claim C2, as stated, fails: the argument is a list of two calls, the parameters of the
  first are an integer, and \<open>system.multicall\<close> raises ValueError instead of returning a
  list; the second call is never dispatched.
\<close>

theorem system_multi_call_aborts:
  "system_multi_call example_process [] (PList malformed_calls) = (Inl ValueError, [])"
  by (simp add: system_multi_call_def malformed_calls_def sub_request_def RpcRequest_def)

text \<open>
  Claim C2, amended. An argument that is not a list makes \<open>system.multicall\<close> raise
  RPCInvalidParams. For a list of call descriptors (structs with a \<open>methodName\<close> and, if
  present, \<open>params\<close> that \<open>RpcRequest\<close> accepts), and a handler whose error results hold
  the triple of \<open>set_error\<close>, it returns a list as long as the argument. Every call is
  turned into its request and dispatched, in order and whatever the results before it;
  the entry at index \<open>i\<close> is the fault struct of code and message when result \<open>i\<close> is
  an error, and the one-element list of the payload otherwise.
\<close>

theorem system_multi_call_results:
  "((\<forall>cs. calls \<noteq> PList cs) \<longrightarrow> system_multi_call process h calls = (Inl RPCInvalidParams, h)) \<and>
   ((\<forall>c\<in>set cs. call_descriptor c) \<and> (\<forall>h' r. error_is_triple (fst (process h' r))) \<longrightarrow>
      (\<exists>out.
         system_multi_call process h (PList cs) =
           (Inr (PList out), snd (dispatch_all process h (requests_of cs))) \<and>
         length out = length cs \<and>
         length (requests_of cs) = length cs \<and>
         (\<forall>i<length cs.
            sub_request (cs ! i) = Inr (requests_of cs ! i) \<and>
            (let res = fst (dispatch_all process h (requests_of cs)) ! i in
             if is_error res = Some True
             then \<exists>code message.
                    error_code res = Inr code \<and> error_message res = Inr message \<and>
                    out ! i = PDict [(PStr ''faultCode'', code), (PStr ''faultString'', message)]
             else out ! i = PList [success_data res]))))"
proof (intro conjI impI)
  assume "\<forall>cs. calls \<noteq> PList cs"
  then show "system_multi_call process h calls = (Inl RPCInvalidParams, h)"
    by (cases calls) (simp_all add: system_multi_call_def)
next
  assume a: "(\<forall>c\<in>set cs. call_descriptor c) \<and> (\<forall>h' r. error_is_triple (fst (process h' r)))"
  let ?rs = "requests_of cs"
  let ?res = "fst (dispatch_all process h ?rs)"
  from a multi_call_loop_all [of cs process h "[]"] obtain out where
    loop: "multi_call_loop process h cs [] = (Inr out, snd (dispatch_all process h ?rs))" and
    entries: "map multicall_entry ?res = map Inr out" and
    reqs: "map sub_request cs = map Inr ?rs"
    by auto
  from reqs have len_rs: "length ?rs = length cs"
    using map_eq_imp_length_eq by fastforce
  from entries have "length ?res = length out" by (rule map_eq_imp_length_eq)
  with len_rs have len_out: "length out = length cs"
    by (simp add: length_dispatch_all)
  have each: "sub_request (cs ! i) = Inr (?rs ! i) \<and>
            (let res = ?res ! i in
             if is_error res = Some True
             then \<exists>code message.
                    error_code res = Inr code \<and> error_message res = Inr message \<and>
                    out ! i = PDict [(PStr ''faultCode'', code), (PStr ''faultString'', message)]
             else out ! i = PList [success_data res])" if i: "i < length cs" for i
  proof -
    from reqs i have r: "sub_request (cs ! i) = Inr (?rs ! i)" by (rule map_eq_nth)
    from i len_rs have "i < length ?res" by (simp add: length_dispatch_all)
    with entries have "multicall_entry (?res ! i) = Inr (out ! i)" by (rule map_eq_nth)
    from multicall_entry_shape [OF this] r show ?thesis by (simp add: Let_def)
  qed
  from loop have "system_multi_call process h (PList cs) =
           (Inr (PList out), snd (dispatch_all process h ?rs))"
    by (simp add: system_multi_call_def)
  with len_out len_rs each
  show "\<exists>out. system_multi_call process h (PList cs) =
           (Inr (PList out), snd (dispatch_all process h ?rs)) \<and>
         length out = length cs \<and>
         length ?rs = length cs \<and>
         (\<forall>i<length cs.
            sub_request (cs ! i) = Inr (?rs ! i) \<and>
            (let res = ?res ! i in
             if is_error res = Some True
             then \<exists>code message.
                    error_code res = Inr code \<and> error_message res = Inr message \<and>
                    out ! i = PDict [(PStr ''faultCode'', code), (PStr ''faultString'', message)]
             else out ! i = PList [success_data res]))"
    by blast
qed

lemma example_process_triple: "error_is_triple (fst (example_process h r))"
  by (simp add: error_is_triple_def is_error_def set_success_def set_error_def RpcResult_def
      split: pyval.splits list.splits)

lemma example_requests:
  "requests_of example_calls =
     [\<lparr> request_id = PNone, method_name = PStr ''add'', args = PList [PInt 2, PInt 3],
         kwargs = PDict [], attrs = [] \<rparr>,
      \<lparr> request_id = PNone, method_name = PStr ''missing'', args = PList [],
         kwargs = PDict [], attrs = [] \<rparr>]"
  by (simp add: requests_of_def example_calls_def sub_request_def RpcRequest_def)

lemma example_dispatch:
  "dispatch_all example_process [] (requests_of example_calls) =
     ([set_success (PInt 5) (RpcResult PNone),
       set_error (PInt (- 32601)) (PStr ''Method not found'') PNone (RpcResult PNone)],
      [PStr ''add'', PStr ''missing''])"
  by (simp add: example_requests)

theorem system_multi_call_results_witness:
  "list_all call_descriptor example_calls \<and>
   (\<forall>h r. error_is_triple (fst (example_process h r))) \<and>
   system_multi_call example_process [] (PList example_calls) =
     (Inr (PList [PList [PInt 5],
                  PDict [(PStr ''faultCode'', PInt (- 32601)),
                         (PStr ''faultString'', PStr ''Method not found'')]]),
      [PStr ''add'', PStr ''missing'']) \<and>
   system_multi_call example_process [] (PTuple example_calls) = (Inl RPCInvalidParams, [])"
proof -
  have wf: "list_all call_descriptor example_calls"
    by (simp add: example_calls_def)
  then have wf': "\<forall>c\<in>set example_calls. call_descriptor c"
    by (simp add: list_all_iff)
  have tr: "\<forall>h r. error_is_triple (fst (example_process h r))"
    using example_process_triple by blast
  have len: "length example_calls = 2" by (simp add: example_calls_def)
  from system_multi_call_results [of "PList example_calls" example_process "[]" example_calls] wf' tr
  obtain out where
    res: "system_multi_call example_process [] (PList example_calls) =
            (Inr (PList out), snd (dispatch_all example_process [] (requests_of example_calls)))"
    and lo: "length out = length example_calls"
    and each: "\<forall>i<length example_calls.
            (let res = fst (dispatch_all example_process [] (requests_of example_calls)) ! i in
             if is_error res = Some True
             then \<exists>code message.
                    error_code res = Inr code \<and> error_message res = Inr message \<and>
                    out ! i = PDict [(PStr ''faultCode'', code), (PStr ''faultString'', message)]
             else out ! i = PList [success_data res])"
    by auto
  from each len have "out ! 0 = PList [PInt 5]"
    by (auto simp: example_dispatch is_error_def set_success_def success_data_def RpcResult_def
        dest!: spec [of _ 0])
  moreover from each len have "out ! 1 = PDict [(PStr ''faultCode'', PInt (- 32601)),
                         (PStr ''faultString'', PStr ''Method not found'')]"
    by (auto simp: example_dispatch is_error_def set_error_def error_code_def error_message_def
        RpcResult_def dest!: spec [of _ 1])
  moreover from lo len have "length out = 2" by simp
  ultimately have "out = [PList [PInt 5], PDict [(PStr ''faultCode'', PInt (- 32601)),
                         (PStr ''faultString'', PStr ''Method not found'')]]"
    by (cases out; cases "tl out") auto
  with res have ok: "system_multi_call example_process [] (PList example_calls) =
     (Inr (PList [PList [PInt 5],
                  PDict [(PStr ''faultCode'', PInt (- 32601)),
                         (PStr ''faultString'', PStr ''Method not found'')]]),
      [PStr ''add'', PStr ''missing''])"
    by (simp add: example_dispatch del: dispatch_all.simps)
  have "system_multi_call example_process [] (PTuple example_calls) = (Inl RPCInvalidParams, [])"
    using system_multi_call_results [of "PTuple example_calls" example_process "[]" "[]"] by simp
  with wf tr ok show ?thesis by blast
qed


end
